theory Spec2Isabelle
  imports Main
begin

section \<open>Python values and errors\<close>

text \<open>
  The values that \<^verbatim>\<open>json.loads\<close> returns and \<^verbatim>\<open>json.dumps\<close> accepts. A dict is
  an association list in insertion order. A float is finite (\<open>Finite m e\<close> stands for
  \<open>m * 2 ^ e\<close>), an infinity with its sign, or not a number; nothing below depends on
  more of a float than its truth value.
\<close>

datatype pyfloat = Finite int int | Infinite bool | NaN

datatype json =
    JNull
  | JBool bool
  | JInt int
  | JFloat pyfloat
  | JStr string
  | JList "json list"
  | JDict "(string \<times> json) list"

text \<open>The exceptions that the modelled code, the JSON library and the Redis client raise.\<close>

datatype error =
    JSONDecodeError
  | UnicodeDecodeError
  | ValueError
  | RecursionError
  | TypeError
  | AttributeError
  | DataError

text \<open>Python's truth value of a decoded JSON value (\<^verbatim>\<open>x or y\<close>, \<^verbatim>\<open>not x\<close>).\<close>

fun truthy :: "json \<Rightarrow> bool" where
  "truthy JNull = False"
| "truthy (JBool b) = b"
| "truthy (JInt n) = (n \<noteq> 0)"
| "truthy (JFloat f) = (case f of Finite m e \<Rightarrow> m \<noteq> 0 | Infinite s \<Rightarrow> True | NaN \<Rightarrow> True)"
| "truthy (JStr s) = (s \<noteq> [])"
| "truthy (JList xs) = (xs \<noteq> [])"
| "truthy (JDict kvs) = (kvs \<noteq> [])"

text \<open>
  \<^verbatim>\<open>str.strip()\<close>: drops leading and trailing whitespace. A \<open>char\<close> stands for the
  code point of its byte value; these are the code points below 256 that Python counts
  as whitespace.
\<close>

definition is_space :: "char \<Rightarrow> bool" where
  "is_space c =
     (let n = (of_char c :: nat)
      in (9 \<le> n \<and> n \<le> 13) \<or> (28 \<le> n \<and> n \<le> 32) \<or> n = 133 \<or> n = 160)"

definition strip :: "string \<Rightarrow> string" where
  "strip s = rev (dropWhile is_space (rev (dropWhile is_space s)))"

text \<open>
  Two conversions of the interpreter and of the Redis client that are not code of the
  repository: \<^verbatim>\<open>str(v)\<close>, which the f-string of \<^verbatim>\<open>_todo_key\<close> applies to its
  argument, and the client's encoding of a command argument. Of a \<^verbatim>\<open>str\<close> both are
  the string itself. What they make of any other value (\<^verbatim>\<open>None\<close>, a bool, a
  number, a list, a dict; the client refuses some of them with an exception) is a
  parameter of the model.
\<close>

record library =
  str_of_value :: "json \<Rightarrow> string"
  encode_value :: "json \<Rightarrow> error + string"

definition py_str :: "library \<Rightarrow> json \<Rightarrow> string" where
  "py_str lib v = (case v of JStr s \<Rightarrow> s | _ \<Rightarrow> str_of_value lib v)"

definition client_encode :: "library \<Rightarrow> json \<Rightarrow> error + string" where
  "client_encode lib v = (case v of JStr s \<Rightarrow> Inr s | _ \<Rightarrow> encode_value lib v)"

section \<open>models.py: the Todo dataclass\<close>

text \<open>
  \<^verbatim>\<open>id\<close> and \<^verbatim>\<open>done\<close> are taken in Isabelle, so the two fields carry a suffix.
  The annotations of a dataclass are not checked when an object is built, so a field holds
  any value.
\<close>

record todo =
  id_f :: json
  title :: json
  done_f :: json
  created_at :: json

text \<open>
  \<^verbatim>\<open>Todo.new(title)\<close>. The two values the function draws from its environment,
  \<^verbatim>\<open>str(uuid.uuid4())\<close> and \<^verbatim>\<open>datetime.utcnow().isoformat()\<close>, are arguments.
\<close>

definition Todo_new :: "string \<Rightarrow> string \<Rightarrow> string \<Rightarrow> todo" where
  "Todo_new uuid4 utcnow title_arg =
     \<lparr>id_f = JStr uuid4, title = JStr (strip title_arg), done_f = JBool False,
      created_at = JStr utcnow\<rparr>"

text \<open>\<^verbatim>\<open>to_dict\<close>: \<^verbatim>\<open>asdict(self)\<close>, the fields in declaration order.\<close>

definition to_dict :: "todo \<Rightarrow> json" where
  "to_dict t =
     JDict [(''id'', id_f t), (''title'', title t),
            (''done'', done_f t), (''created_at'', created_at t)]"

text \<open>The value that a dict holds under a key which it has.\<close>

definition item :: "(string \<times> json) list \<Rightarrow> string \<Rightarrow> json" where
  "item kvs k = (case map_of kvs k of Some v \<Rightarrow> v | None \<Rightarrow> JNull)"

text \<open>
  \<^verbatim>\<open>Todo(**data)\<close>: \<^verbatim>\<open>data\<close> must be a mapping whose keys are exactly the four
  field names (none has a default), or the call raises TypeError. The values are taken
  as they are.
\<close>

fun Todo_init :: "json \<Rightarrow> error + todo" where
  "Todo_init (JDict kvs) =
     (if set (map fst kvs) \<noteq> {''id'', ''title'', ''done'', ''created_at''} then Inl TypeError
      else Inr \<lparr>id_f = item kvs ''id'', title = item kvs ''title'',
                done_f = item kvs ''done'', created_at = item kvs ''created_at''\<rparr>)"
| "Todo_init _ = Inl TypeError"

section \<open>The Redis database\<close>

text \<open>
  A byte string held under a string key. \<^verbatim>\<open>json.dumps\<close> and \<^verbatim>\<open>json.loads\<close> are
  Python's library, not code of the repository, so a byte string is represented by what
  \<^verbatim>\<open>json.loads\<close> does with it: the empty byte string; a byte string for which it
  returns a value; a non-empty byte string on which it raises an exception
  (JSONDecodeError on a text that is not JSON, UnicodeDecodeError on bytes that are no
  text, ValueError or RecursionError on some JSON texts). \<^verbatim>\<open>json.dumps\<close> writes a
  text that \<^verbatim>\<open>json.loads\<close> reads back as the value dumped.
\<close>

datatype bytes = Empty_bytes | Loads_to json | Loads_raises error

definition json_dumps :: "json \<Rightarrow> bytes" where
  "json_dumps j = Loads_to j"

fun json_loads :: "bytes \<Rightarrow> error + json" where
  "json_loads (Loads_to j) = Inr j"
| "json_loads (Loads_raises e) = Inl e"
| "json_loads Empty_bytes = Inl JSONDecodeError"

text \<open>
  The database with the layout that storage.py gives it: string values under the keys
  \<^verbatim>\<open>TODO:<id>\<close>, and one list of identifiers under the key \<^verbatim>\<open>TODOS_ORDER\<close> (a
  list key that does not exist is the empty list).
\<close>

record redis =
  strings :: "string \<rightharpoonup> bytes"
  todos_order :: "string list"

definition redis_get :: "redis \<Rightarrow> string \<Rightarrow> bytes option" where
  "redis_get r k = strings r k"

definition redis_set :: "redis \<Rightarrow> string \<Rightarrow> bytes \<Rightarrow> redis" where
  "redis_set r k v = r\<lparr>strings := (strings r)(k \<mapsto> v)\<rparr>"

definition redis_exists :: "redis \<Rightarrow> string \<Rightarrow> nat" where
  "redis_exists r k = (if strings r k = None then 0 else 1)"

text \<open>DEL: the number of keys removed, and the database without the key.\<close>

definition redis_delete :: "redis \<Rightarrow> string \<Rightarrow> nat \<times> redis" where
  "redis_delete r k =
     ((if strings r k = None then 0 else 1), r\<lparr>strings := (strings r)(k := None)\<rparr>)"

text \<open>LPUSH, LRANGE 0 -1 and LREM with count 0 on \<^verbatim>\<open>TODOS_ORDER\<close>.\<close>

definition redis_lpush :: "redis \<Rightarrow> string \<Rightarrow> redis" where
  "redis_lpush r v = r\<lparr>todos_order := v # todos_order r\<rparr>"

definition redis_lrange :: "redis \<Rightarrow> string list" where
  "redis_lrange r = todos_order r"

definition redis_lrem :: "redis \<Rightarrow> string \<Rightarrow> nat \<times> redis" where
  "redis_lrem r v =
     (length (filter (\<lambda>x. x = v) (todos_order r)),
      r\<lparr>todos_order := removeAll v (todos_order r)\<rparr>)"

section \<open>storage.py: TodoStorage\<close>

definition todo_key :: "string \<Rightarrow> string" where
  "todo_key todo_id = ''TODO:'' @ todo_id"

text \<open>
  \<^verbatim>\<open>add\<close>. Both commands are queued in one pipeline, and the client encodes the
  arguments of all queued commands when \<^verbatim>\<open>execute()\<close> packs them, before it sends
  any: an argument that it refuses raises with nothing written.
\<close>

definition add :: "library \<Rightarrow> redis \<Rightarrow> todo \<Rightarrow> (error + todo) \<times> redis" where
  "add lib r t =
     (case client_encode lib (id_f t) of
        Inl e \<Rightarrow> (Inl e, r)
      | Inr v \<Rightarrow>
          (let r1 = redis_set r (todo_key (py_str lib (id_f t))) (json_dumps (to_dict t));
               r2 = redis_lpush r1 v
           in (Inr t, r2)))"

definition get :: "redis \<Rightarrow> string \<Rightarrow> error + todo option" where
  "get r todo_id =
     (case redis_get r (todo_key todo_id) of
        None \<Rightarrow> Inr None
      | Some raw \<Rightarrow>
          if raw = Empty_bytes then Inr None
          else (case json_loads raw of
                  Inl e \<Rightarrow> Inl e
                | Inr data \<Rightarrow>
                    (case Todo_init data of Inl e \<Rightarrow> Inl e | Inr t \<Rightarrow> Inr (Some t))))"

text \<open>
  The loop of \<^verbatim>\<open>list_all\<close> over the identifiers, \<open>todos\<close> the list built so far.
  An object of the dataclass is always true, so \<^verbatim>\<open>if t\<close> asks whether \<^verbatim>\<open>get\<close>
  returned None.
\<close>

fun list_all_loop :: "redis \<Rightarrow> string list \<Rightarrow> todo list \<Rightarrow> error + todo list" where
  "list_all_loop r [] todos = Inr todos"
| "list_all_loop r (tid # ids) todos =
     (case get r tid of
        Inl e \<Rightarrow> Inl e
      | Inr None \<Rightarrow> list_all_loop r ids todos
      | Inr (Some t) \<Rightarrow> list_all_loop r ids (todos @ [t]))"

text \<open>\<^verbatim>\<open>list_all\<close>; the name is taken by a function on lists, hence the suffix.\<close>

definition list_all_todos :: "redis \<Rightarrow> error + todo list" where
  "list_all_todos r = list_all_loop r (redis_lrange r) []"

definition update :: "library \<Rightarrow> redis \<Rightarrow> todo \<Rightarrow> bool \<times> redis" where
  "update lib r t =
     (if redis_exists r (todo_key (py_str lib (id_f t))) = 0 then (False, r)
      else (True, redis_set r (todo_key (py_str lib (id_f t))) (json_dumps (to_dict t))))"

definition toggle :: "library \<Rightarrow> redis \<Rightarrow> string \<Rightarrow> (error + todo option) \<times> redis" where
  "toggle lib r todo_id =
     (case get r todo_id of
        Inl e \<Rightarrow> (Inl e, r)
      | Inr None \<Rightarrow> (Inr None, r)
      | Inr (Some t) \<Rightarrow>
          (let t' = t\<lparr>done_f := JBool (\<not> truthy (done_f t))\<rparr>
           in (Inr (Some t'), snd (update lib r t'))))"

text \<open>
  \<^verbatim>\<open>delete\<close>: both commands run in one pipeline; \<open>res\<close> is the list of the two
  counts, so \<^verbatim>\<open>bool(res and (res[0] or res[1]))\<close> is whether one of them is not 0.
\<close>

definition delete :: "redis \<Rightarrow> string \<Rightarrow> bool \<times> redis" where
  "delete r todo_id =
     (let (res0, r1) = redis_delete r (todo_key todo_id);
          (res1, r2) = redis_lrem r1 todo_id
      in (res0 \<noteq> 0 \<or> res1 \<noteq> 0, r2))"

text \<open>
  The loop of \<^verbatim>\<open>clear_completed\<close> over the identifiers read at its start. An
  exception of \<^verbatim>\<open>get\<close> leaves the loop with the deletions made so far.
\<close>

fun clear_loop :: "redis \<Rightarrow> string list \<Rightarrow> nat \<Rightarrow> (error + nat) \<times> redis" where
  "clear_loop r [] removed = (Inr removed, r)"
| "clear_loop r (tid # ids) removed =
     (case get r tid of
        Inl e \<Rightarrow> (Inl e, r)
      | Inr None \<Rightarrow> clear_loop r ids removed
      | Inr (Some t) \<Rightarrow>
          if truthy (done_f t) then
            (case delete r tid of
               (True, r') \<Rightarrow> clear_loop r' ids (removed + 1)
             | (False, r') \<Rightarrow> clear_loop r' ids removed)
          else clear_loop r ids removed)"

definition clear_completed :: "redis \<Rightarrow> (error + nat) \<times> redis" where
  "clear_completed r = clear_loop r (redis_lrange r) 0"

section \<open>main.py: the request handlers\<close>

text \<open>
  A JSON response is its status code and body. An exception that a handler does not
  catch is the \<open>Inl\<close> result (Flask answers 500). The handlers of the web pages
  always redirect to the index; what they return here is the list of messages flashed.
\<close>

type_synonym response = "nat \<times> json"

text \<open>
  \<^verbatim>\<open>api_add\<close>. \<open>body\<close> is \<^verbatim>\<open>request.get_json(silent=True)\<close>, None when the
  request has no JSON body. \<^verbatim>\<open>.get\<close> exists on a dict only and \<^verbatim>\<open>.strip\<close> on a
  string only.
\<close>

definition api_add ::
    "library \<Rightarrow> redis \<Rightarrow> string \<Rightarrow> string \<Rightarrow> json option \<Rightarrow> (error + response) \<times> redis" where
  "api_add lib r uuid4 utcnow body =
     (let data = (case body of None \<Rightarrow> JDict [] | Some j \<Rightarrow> if truthy j then j else JDict [])
      in case data of
           JDict kvs \<Rightarrow>
             (let v = (case map_of kvs ''title'' of
                         None \<Rightarrow> JStr []
                       | Some j \<Rightarrow> if truthy j then j else JStr [])
              in case v of
                   JStr s \<Rightarrow>
                     (let title_arg = strip s
                      in if title_arg = [] then
                           (Inr (400, JDict [(''error'', JStr ''title is required'')]), r)
                         else
                           (case add lib r (Todo_new uuid4 utcnow title_arg) of
                              (Inl e, r') \<Rightarrow> (Inl e, r')
                            | (Inr t, r') \<Rightarrow> (Inr (201, to_dict t), r')))
                 | _ \<Rightarrow> (Inl AttributeError, r))
         | _ \<Rightarrow> (Inl AttributeError, r))"

text \<open>\<^verbatim>\<open>add_todo\<close>. \<open>form_title\<close> is the form's \<^verbatim>\<open>title\<close> field, None when missing.\<close>

definition add_todo ::
    "library \<Rightarrow> redis \<Rightarrow> string \<Rightarrow> string \<Rightarrow> string option \<Rightarrow> (error + string list) \<times> redis" where
  "add_todo lib r uuid4 utcnow form_title =
     (let title_arg = strip (case form_title of None \<Rightarrow> [] | Some s \<Rightarrow> s)
      in if title_arg = [] then (Inr [''Please enter a todo title.''], r)
         else (case add lib r (Todo_new uuid4 utcnow title_arg) of
                 (Inl e, r') \<Rightarrow> (Inl e, r')
               | (Inr t, r') \<Rightarrow> (Inr [], r')))"

definition api_toggle :: "library \<Rightarrow> redis \<Rightarrow> string \<Rightarrow> (error + response) \<times> redis" where
  "api_toggle lib r todo_id =
     (case toggle lib r todo_id of
        (Inl e, r') \<Rightarrow> (Inl e, r')
      | (Inr None, r') \<Rightarrow> (Inr (404, JDict [(''error'', JStr ''not found'')]), r')
      | (Inr (Some t), r') \<Rightarrow> (Inr (200, to_dict t), r'))"

section \<open>Notions used in the statements\<close>

text \<open>
  An identifier is completed when \<^verbatim>\<open>get\<close> returns a record whose flag is true, as
  \<^verbatim>\<open>clear_completed\<close> tests it.
\<close>

definition completed :: "redis \<Rightarrow> string \<Rightarrow> bool" where
  "completed r todo_id =
     (case get r todo_id of Inr (Some t) \<Rightarrow> truthy (done_f t) | _ \<Rightarrow> False)"

text \<open>The records that \<^verbatim>\<open>get\<close> returns for a list of identifiers, in the list's order.\<close>

definition records_of :: "redis \<Rightarrow> string list \<Rightarrow> todo list" where
  "records_of r ids =
     concat (map (\<lambda>tid. case get r tid of Inr (Some t) \<Rightarrow> [t] | _ \<Rightarrow> []) ids)"

text \<open>The exception of the first identifier of the list on which \<^verbatim>\<open>get\<close> raises.\<close>

fun first_error :: "redis \<Rightarrow> string list \<Rightarrow> error option" where
  "first_error r [] = None"
| "first_error r (tid # ids) =
     (case get r tid of Inl e \<Rightarrow> Some e | Inr x \<Rightarrow> first_error r ids)"

text \<open>No identifier of the list makes \<^verbatim>\<open>get\<close> raise.\<close>

definition decodable :: "redis \<Rightarrow> string list \<Rightarrow> bool" where
  "decodable r ids = list_all (\<lambda>tid. case get r tid of Inl e \<Rightarrow> False | Inr x \<Rightarrow> True) ids"

text \<open>
  A library for the examples: its client refuses every argument that is not a string.
  The examples use string identifiers only and never consult it.
\<close>

definition strings_only :: library where
  "strings_only = \<lparr>str_of_value = (\<lambda>v. []), encode_value = (\<lambda>v. Inl DataError)\<rparr>"

text \<open>
  The database of the specification's example for \<^verbatim>\<open>clear_completed\<close>: three todos
  added to the empty database, then two of them toggled.
\<close>

definition example_store :: redis where
  "example_store =
     (let r0 = \<lparr>strings = Map.empty, todos_order = []\<rparr>;
          r1 = snd (add strings_only r0 (Todo_new ''A'' ''t1'' ''one''));
          r2 = snd (add strings_only r1 (Todo_new ''B'' ''t2'' ''two''));
          r3 = snd (add strings_only r2 (Todo_new ''C'' ''t3'' ''three''));
          r4 = snd (toggle strings_only r3 ''B'');
          r5 = snd (toggle strings_only r4 ''C'')
      in r5)"

section \<open>Deleting\<close>

lemma delete_result:
  "fst (delete r todo_id) =
     (strings r (todo_key todo_id) \<noteq> None \<or> todo_id \<in> set (todos_order r))"
  by (auto simp: delete_def redis_delete_def redis_lrem_def filter_empty_conv)

lemma delete_state:
  "snd (delete r todo_id) =
     r\<lparr>strings := (strings r)(todo_key todo_id := None),
       todos_order := removeAll todo_id (todos_order r)\<rparr>"
  by (simp add: delete_def redis_delete_def redis_lrem_def)

text \<open>
  C2. \<^verbatim>\<open>delete\<close> returns true exactly when the record key existed or the identifier
  occurred in the order list before the call; when neither held it returns false and the
  database is as it was.
\<close>

theorem delete_inclusive_or:
  "fst (delete r todo_id) =
     (todo_key todo_id \<in> dom (strings r) \<or> todo_id \<in> set (todos_order r))
   \<and> (todo_key todo_id \<notin> dom (strings r) \<and> todo_id \<notin> set (todos_order r)
        \<longrightarrow> delete r todo_id = (False, r))"
proof -
  have res: "fst (delete r todo_id) =
     (todo_key todo_id \<in> dom (strings r) \<or> todo_id \<in> set (todos_order r))"
    by (auto simp: delete_result)
  have same: "delete r todo_id = (False, r)"
    if "todo_key todo_id \<notin> dom (strings r)" "todo_id \<notin> set (todos_order r)"
  proof -
    have "strings r (todo_key todo_id) = None"
      using that(1) by (simp add: dom_def)
    then have "(strings r)(todo_key todo_id := None) = strings r"
      by (simp add: fun_upd_idem)
    then have "snd (delete r todo_id) = r"
      using that(2) by (simp add: delete_state)
    moreover have "\<not> fst (delete r todo_id)"
      using res that by simp
    ultimately show ?thesis
      by (simp add: prod_eq_iff)
  qed
  from res same show ?thesis by blast
qed

theorem delete_inclusive_or_witness:
  "todo_key ''x'' \<notin> dom (strings \<lparr>strings = Map.empty, todos_order = [''a'']\<rparr>)
   \<and> ''x'' \<notin> set (todos_order \<lparr>strings = Map.empty, todos_order = [''a'']\<rparr>)
   \<and> delete \<lparr>strings = Map.empty, todos_order = [''a'']\<rparr> ''x''
       = (False, \<lparr>strings = Map.empty, todos_order = [''a'']\<rparr>)
   \<and> fst (delete \<lparr>strings = Map.empty, todos_order = [''a'']\<rparr> ''a'')"
  using delete_inclusive_or [of "\<lparr>strings = Map.empty, todos_order = [''a'']\<rparr>" "''x''"]
        delete_inclusive_or [of "\<lparr>strings = Map.empty, todos_order = [''a'']\<rparr>" "''a''"]
  by simp

section \<open>Reading a record\<close>

lemma todo_key_inj [simp]: "(todo_key a = todo_key b) = (a = b)"
  by (simp add: todo_key_def)

lemma Todo_init_to_dict [simp]: "Todo_init (to_dict t) = Inr t"
  by (simp add: to_dict_def item_def)

lemma get_cong:
  "strings r' (todo_key tid) = strings r (todo_key tid) \<Longrightarrow> get r' tid = get r tid"
  by (simp add: get_def redis_get_def)

lemma get_stored:
  "strings r (todo_key tid) = Some (json_dumps (to_dict t)) \<Longrightarrow> get r tid = Inr (Some t)"
  by (simp add: get_def redis_get_def json_dumps_def)

lemma get_Some_exists: "get r tid = Inr (Some t) \<Longrightarrow> strings r (todo_key tid) \<noteq> None"
  by (auto simp: get_def redis_get_def split: option.splits)

lemma get_missing: "strings r (todo_key tid) = None \<Longrightarrow> get r tid = Inr None"
  by (simp add: get_def redis_get_def)

lemma get_None_iff:
  "(get r tid = Inr None) =
     (strings r (todo_key tid) = None \<or> strings r (todo_key tid) = Some Empty_bytes)"
  by (auto simp: get_def redis_get_def split: option.splits sum.splits)

text \<open>
  C1, as the code has it. \<^verbatim>\<open>get\<close> returns None exactly when the key does not exist
  or holds the empty byte string. A non-empty stored value that fails to deserialize is
  not turned into None: when \<^verbatim>\<open>json.loads\<close> raises on it, or \<^verbatim>\<open>Todo(**data)\<close>
  raises on the value loaded, \<^verbatim>\<open>get\<close> raises that exception. When both succeed
  \<^verbatim>\<open>get\<close> returns the record.
\<close>

theorem get_absent_or_raises:
  "(get r tid = Inr None \<longleftrightarrow>
      strings r (todo_key tid) = None \<or> strings r (todo_key tid) = Some Empty_bytes)
   \<and> (strings r (todo_key tid) = Some raw \<and> raw \<noteq> Empty_bytes \<and> json_loads raw = Inl e
        \<longrightarrow> get r tid = Inl e)
   \<and> (strings r (todo_key tid) = Some raw \<and> raw \<noteq> Empty_bytes \<and> json_loads raw = Inr data
        \<and> Todo_init data = Inl e
        \<longrightarrow> get r tid = Inl e)
   \<and> (strings r (todo_key tid) = Some raw \<and> raw \<noteq> Empty_bytes \<and> json_loads raw = Inr data
        \<and> Todo_init data = Inr t
        \<longrightarrow> get r tid = Inr (Some t))"
  by (simp add: get_None_iff) (simp add: get_def redis_get_def)

theorem get_absent_or_raises_witness:
  "get \<lparr>strings = [todo_key ''a'' \<mapsto> Loads_to (JDict [(''id'', JStr ''a'')]),
                   todo_key ''c'' \<mapsto> Loads_raises UnicodeDecodeError],
        todos_order = [''a'']\<rparr> ''b'' = Inr None
   \<and> get \<lparr>strings = [todo_key ''a'' \<mapsto> Loads_to (JDict [(''id'', JStr ''a'')]),
                     todo_key ''c'' \<mapsto> Loads_raises UnicodeDecodeError],
          todos_order = [''a'']\<rparr> ''a'' = Inl TypeError
   \<and> get \<lparr>strings = [todo_key ''a'' \<mapsto> Loads_to (JDict [(''id'', JStr ''a'')]),
                     todo_key ''c'' \<mapsto> Loads_raises UnicodeDecodeError],
          todos_order = [''a'']\<rparr> ''c'' = Inl UnicodeDecodeError"
  using get_absent_or_raises
          [where r = "\<lparr>strings = [todo_key ''a'' \<mapsto> Loads_to (JDict [(''id'', JStr ''a'')]),
                                    todo_key ''c'' \<mapsto> Loads_raises UnicodeDecodeError],
                        todos_order = [''a'']\<rparr>"
             and tid = "''b''"]
        get_absent_or_raises
          [where r = "\<lparr>strings = [todo_key ''a'' \<mapsto> Loads_to (JDict [(''id'', JStr ''a'')]),
                                    todo_key ''c'' \<mapsto> Loads_raises UnicodeDecodeError],
                        todos_order = [''a'']\<rparr>"
             and tid = "''a''" and raw = "Loads_to (JDict [(''id'', JStr ''a'')])"
             and data = "JDict [(''id'', JStr ''a'')]" and e = TypeError]
        get_absent_or_raises
          [where r = "\<lparr>strings = [todo_key ''a'' \<mapsto> Loads_to (JDict [(''id'', JStr ''a'')]),
                                    todo_key ''c'' \<mapsto> Loads_raises UnicodeDecodeError],
                        todos_order = [''a'']\<rparr>"
             and tid = "''c''" and raw = "Loads_raises UnicodeDecodeError"
             and e = UnicodeDecodeError]
  by simp

text \<open>
  C1 as the specification states it fails: the stored value \<^verbatim>\<open>{}\<close> is a JSON text
  that does not deserialize to a record, and \<^verbatim>\<open>get\<close> raises TypeError on it instead
  of returning None.
\<close>

theorem get_malformed_counterexample:
  "strings \<lparr>strings = [todo_key ''a'' \<mapsto> Loads_to (JDict [])], todos_order = []\<rparr>
       (todo_key ''a'') = Some (Loads_to (JDict []))
   \<and> Todo_init (JDict []) = Inl TypeError
   \<and> get \<lparr>strings = [todo_key ''a'' \<mapsto> Loads_to (JDict [])], todos_order = []\<rparr> ''a''
       = Inl TypeError
   \<and> get \<lparr>strings = [todo_key ''a'' \<mapsto> Loads_to (JDict [])], todos_order = []\<rparr> ''a''
       \<noteq> Inr None"
  by (simp add: get_def redis_get_def)

section \<open>Creating a record\<close>

lemma add_new:
  "add lib r (Todo_new uid now title_arg) =
     (Inr (Todo_new uid now title_arg),
      r\<lparr>strings := (strings r)(todo_key uid \<mapsto>
                      json_dumps (to_dict (Todo_new uid now title_arg))),
        todos_order := uid # todos_order r\<rparr>)"
  by (simp add: add_def client_encode_def py_str_def redis_set_def redis_lpush_def
        Todo_new_def)

lemma get_add_new:
  "get (snd (add lib r (Todo_new uid now title_arg))) tid =
     (if tid = uid then Inr (Some (Todo_new uid now title_arg)) else get r tid)"
  by (auto simp: add_new get_stored intro: get_cong)

lemma add_new_parts:
  "fst (add lib r (Todo_new uid now title_arg)) = Inr (Todo_new uid now title_arg)"
  "strings (snd (add lib r (Todo_new uid now title_arg)))
     = (strings r)(todo_key uid \<mapsto> json_dumps (to_dict (Todo_new uid now title_arg)))"
  "todos_order (snd (add lib r (Todo_new uid now title_arg))) = uid # todos_order r"
  by (simp_all add: add_new)

lemma strip_Nil [simp]: "strip [] = []"
  by (simp add: strip_def)




text \<open>
  C7. A title that is empty after trimming is rejected by both handlers that create
  todos, with status 400 or with the flashed message, and the database is left as it
  was: no record is written and no identifier is pushed.
\<close>

theorem blank_title_rejected:
  "strip s = [] \<Longrightarrow> map_of kvs ''title'' = Some (JStr s) \<Longrightarrow>
     api_add lib r uid now (Some (JDict kvs))
       = (Inr (400, JDict [(''error'', JStr ''title is required'')]), r)
     \<and> add_todo lib r uid now (Some s) = (Inr [''Please enter a todo title.''], r)"
  by (cases kvs) (auto simp: api_add_def add_todo_def Let_def)

theorem blank_title_rejected_witness:
  "strip ''   '' = [] \<and> map_of [(''title'', JStr ''   '')] ''title'' = Some (JStr ''   '')
   \<and> api_add strings_only \<lparr>strings = Map.empty, todos_order = []\<rparr> ''u1'' ''2024''
        (Some (JDict [(''title'', JStr ''   '')]))
       = (Inr (400, JDict [(''error'', JStr ''title is required'')]),
          \<lparr>strings = Map.empty, todos_order = []\<rparr>)
   \<and> add_todo strings_only \<lparr>strings = Map.empty, todos_order = []\<rparr> ''u1'' ''2024''
        (Some ''   '')
       = (Inr [''Please enter a todo title.''], \<lparr>strings = Map.empty, todos_order = []\<rparr>)"
proof -
  have h1: "strip ''   '' = []" by (simp add: strip_def is_space_def)
  have h2: "map_of [(''title'', JStr ''   '')] ''title'' = Some (JStr ''   '')" by simp
  show ?thesis
    using blank_title_rejected [where lib = strings_only
                                  and r = "\<lparr>strings = Map.empty, todos_order = []\<rparr>"
                                  and uid = "''u1''" and now = "''2024''", OF h1 h2] h1 h2
    by simp
qed

section \<open>Toggling\<close>

lemma toggle_Some:
  "get r tid = Inr (Some t) \<Longrightarrow>
     toggle lib r tid = (Inr (Some (t\<lparr>done_f := JBool (\<not> truthy (done_f t))\<rparr>)),
                         snd (update lib r (t\<lparr>done_f := JBool (\<not> truthy (done_f t))\<rparr>)))"
  by (simp add: toggle_def Let_def)

lemma update_strings:
  "strings (snd (update lib r t)) =
     (if strings r (todo_key (py_str lib (id_f t))) = None then strings r
      else (strings r)(todo_key (py_str lib (id_f t)) \<mapsto> json_dumps (to_dict t)))"
  by (simp add: update_def redis_exists_def redis_set_def)

lemma update_order: "todos_order (snd (update lib r t)) = todos_order r"
  by (simp add: update_def redis_exists_def redis_set_def)

text \<open>
  What \<^verbatim>\<open>get\<close> returns after a toggle. \<^verbatim>\<open>update\<close> writes under the key of the
  identifier stored inside the record, so the record under \<open>tid\<close> changes only when it
  carries \<open>tid\<close> as its own identifier (as every record written by \<^verbatim>\<open>add\<close> does).
\<close>

lemma get_after_toggle:
  assumes "get r tid = Inr (Some t)"
  shows "get (snd (toggle lib r tid)) tid
           = Inr (Some (if py_str lib (id_f t) = tid
                        then t\<lparr>done_f := JBool (\<not> truthy (done_f t))\<rparr> else t))"
proof (cases "py_str lib (id_f t) = tid")
  case True
  have "strings r (todo_key tid) \<noteq> None" using assms by (rule get_Some_exists)
  then have "strings (snd (toggle lib r tid)) (todo_key tid)
               = Some (json_dumps (to_dict (t\<lparr>done_f := JBool (\<not> truthy (done_f t))\<rparr>)))"
    using True by (simp add: toggle_Some[OF assms] update_strings)
  then show ?thesis using True by (simp add: get_stored)
next
  case False
  have "strings (snd (toggle lib r tid)) (todo_key tid) = strings r (todo_key tid)"
    using False by (simp add: toggle_Some[OF assms] update_strings)
  then have "get (snd (toggle lib r tid)) tid = get r tid" by (rule get_cong)
  then show ?thesis using False assms by simp
qed

text \<open>
  C5. When \<^verbatim>\<open>get\<close> finds a record under the identifier, two toggles in a row both
  return a record, and the record that \<^verbatim>\<open>get\<close> finds afterwards has the truth
  value of the original flag and differs from the original record in nothing but that
  field. When the original flag is a boolean, as the flag of every record that the
  program writes is, \<^verbatim>\<open>get\<close> returns the original record again.
\<close>

theorem toggle_twice:
  assumes "get r tid = Inr (Some t)"
  shows "(\<exists>t1. fst (toggle lib r tid) = Inr (Some t1))
       \<and> (\<exists>t2. fst (toggle lib (snd (toggle lib r tid)) tid) = Inr (Some t2))
       \<and> (\<exists>u. get (snd (toggle lib (snd (toggle lib r tid)) tid)) tid = Inr (Some u)
               \<and> truthy (done_f u) = truthy (done_f t)
               \<and> u\<lparr>done_f := done_f t\<rparr> = t)
       \<and> (done_f t = JBool (truthy (done_f t)) \<longrightarrow>
            get (snd (toggle lib (snd (toggle lib r tid)) tid)) tid = Inr (Some t))"
proof -
  let ?r1 = "snd (toggle lib r tid)"
  let ?u = "if py_str lib (id_f t) = tid
            then t\<lparr>done_f := JBool (\<not> truthy (done_f t))\<rparr> else t"
  let ?v = "if py_str lib (id_f t) = tid then t\<lparr>done_f := JBool (truthy (done_f t))\<rparr> else t"
  have g1: "get ?r1 tid = Inr (Some ?u)" using assms by (rule get_after_toggle)
  have g2: "get (snd (toggle lib ?r1 tid)) tid
              = Inr (Some (if py_str lib (id_f ?u) = tid
                           then ?u\<lparr>done_f := JBool (\<not> truthy (done_f ?u))\<rparr> else ?u))"
    using g1 by (rule get_after_toggle)
  have g: "get (snd (toggle lib ?r1 tid)) tid = Inr (Some ?v)"
    using g2 by (simp split: if_splits)
  have v1: "truthy (done_f ?v) = truthy (done_f t)" by simp
  have v2: "?v\<lparr>done_f := done_f t\<rparr> = t" by simp
  have v3: "?v = t" if "done_f t = JBool (truthy (done_f t))"
  proof -
    have "t\<lparr>done_f := JBool (truthy (done_f t))\<rparr> = t\<lparr>done_f := done_f t\<rparr>"
      using that by simp
    then show ?thesis by simp
  qed
  have t1: "fst (toggle lib r tid) = Inr (Some (t\<lparr>done_f := JBool (\<not> truthy (done_f t))\<rparr>))"
    by (simp add: toggle_Some[OF assms])
  have t2: "fst (toggle lib ?r1 tid)
              = Inr (Some (?u\<lparr>done_f := JBool (\<not> truthy (done_f ?u))\<rparr>))"
    by (simp add: toggle_Some[OF g1])
  have c1: "\<exists>t1. fst (toggle lib r tid) = Inr (Some t1)" using t1 by blast
  have c2: "\<exists>t2. fst (toggle lib ?r1 tid) = Inr (Some t2)" using t2 by blast
  have c3: "\<exists>u. get (snd (toggle lib ?r1 tid)) tid = Inr (Some u)
               \<and> truthy (done_f u) = truthy (done_f t) \<and> u\<lparr>done_f := done_f t\<rparr> = t"
    using g v1 v2 by blast
  have c4: "done_f t = JBool (truthy (done_f t)) \<longrightarrow>
            get (snd (toggle lib ?r1 tid)) tid = Inr (Some t)"
    using g v3 by simp
  from c1 c2 c3 c4 show ?thesis by (intro conjI)
qed

theorem toggle_twice_witness:
  "get \<lparr>strings = [todo_key ''a'' \<mapsto> json_dumps (to_dict
           \<lparr>id_f = JStr ''a'', title = JStr ''x'', done_f = JBool True,
            created_at = JStr ''c''\<rparr>)],
        todos_order = [''a'']\<rparr> ''a''
     = Inr (Some \<lparr>id_f = JStr ''a'', title = JStr ''x'', done_f = JBool True,
                  created_at = JStr ''c''\<rparr>)
   \<and> get (snd (toggle strings_only (snd (toggle strings_only
        \<lparr>strings = [todo_key ''a'' \<mapsto> json_dumps (to_dict
           \<lparr>id_f = JStr ''a'', title = JStr ''x'', done_f = JBool True,
            created_at = JStr ''c''\<rparr>)],
          todos_order = [''a'']\<rparr> ''a'')) ''a'')) ''a''
     = Inr (Some \<lparr>id_f = JStr ''a'', title = JStr ''x'', done_f = JBool True,
                  created_at = JStr ''c''\<rparr>)"
proof -
  have h: "get \<lparr>strings = [todo_key ''a'' \<mapsto> json_dumps (to_dict
           \<lparr>id_f = JStr ''a'', title = JStr ''x'', done_f = JBool True,
            created_at = JStr ''c''\<rparr>)],
        todos_order = [''a'']\<rparr> ''a''
     = Inr (Some \<lparr>id_f = JStr ''a'', title = JStr ''x'', done_f = JBool True,
                  created_at = JStr ''c''\<rparr>)"
    by (simp add: get_stored)
  from toggle_twice [OF h, where lib = strings_only] h show ?thesis by simp
qed

text \<open>
  C6. When the record is absent (the key does not exist, or more generally \<^verbatim>\<open>get\<close>
  returns None), \<^verbatim>\<open>toggle\<close> returns None and the database is as it was; the API
  handler turns the None into the 404 response.
\<close>

theorem toggle_absent:
  "(todo_key tid \<notin> dom (strings r) \<longrightarrow> get r tid = Inr None)
   \<and> (get r tid = Inr None \<longrightarrow>
        toggle lib r tid = (Inr None, r)
        \<and> api_toggle lib r tid = (Inr (404, JDict [(''error'', JStr ''not found'')]), r))"
  by (auto simp: get_missing toggle_def api_toggle_def dom_def)

theorem toggle_absent_witness:
  "todo_key ''zz'' \<notin> dom (strings \<lparr>strings = Map.empty, todos_order = [''zz'']\<rparr>)
   \<and> toggle strings_only \<lparr>strings = Map.empty, todos_order = [''zz'']\<rparr> ''zz''
       = (Inr None, \<lparr>strings = Map.empty, todos_order = [''zz'']\<rparr>)
   \<and> api_toggle strings_only \<lparr>strings = Map.empty, todos_order = [''zz'']\<rparr> ''zz''
       = (Inr (404, JDict [(''error'', JStr ''not found'')]),
          \<lparr>strings = Map.empty, todos_order = [''zz'']\<rparr>)"
  using toggle_absent [where tid = "''zz''" and lib = strings_only
                         and r = "\<lparr>strings = Map.empty, todos_order = [''zz'']\<rparr>"]
  by simp

text \<open>
  C9. When \<^verbatim>\<open>get\<close> finds a record under the identifier, \<^verbatim>\<open>toggle\<close> returns that
  record with only the flag flipped, and the record found under the identifier
  afterwards has the same identifier, title and creation timestamp as before.
\<close>

theorem toggle_only_flag:
  assumes "get r tid = Inr (Some t)"
  shows "fst (toggle lib r tid) = Inr (Some (t\<lparr>done_f := JBool (\<not> truthy (done_f t))\<rparr>))
       \<and> (\<exists>u. get (snd (toggle lib r tid)) tid = Inr (Some u)
               \<and> id_f u = id_f t \<and> title u = title t \<and> created_at u = created_at t)"
proof -
  have "fst (toggle lib r tid) = Inr (Some (t\<lparr>done_f := JBool (\<not> truthy (done_f t))\<rparr>))"
    by (simp add: toggle_Some[OF assms])
  moreover note get_after_toggle[OF assms, of lib]
  ultimately show ?thesis by (cases "py_str lib (id_f t) = tid") auto
qed

theorem toggle_only_flag_witness:
  "get \<lparr>strings = [todo_key ''a'' \<mapsto> json_dumps (to_dict
           \<lparr>id_f = JStr ''a'', title = JStr ''x'', done_f = JBool False,
            created_at = JStr ''c''\<rparr>)],
        todos_order = [''a'']\<rparr> ''a''
     = Inr (Some \<lparr>id_f = JStr ''a'', title = JStr ''x'', done_f = JBool False,
                  created_at = JStr ''c''\<rparr>)
   \<and> fst (toggle strings_only \<lparr>strings = [todo_key ''a'' \<mapsto> json_dumps (to_dict
           \<lparr>id_f = JStr ''a'', title = JStr ''x'', done_f = JBool False,
            created_at = JStr ''c''\<rparr>)],
        todos_order = [''a'']\<rparr> ''a'')
     = Inr (Some \<lparr>id_f = JStr ''a'', title = JStr ''x'', done_f = JBool True,
                  created_at = JStr ''c''\<rparr>)"
proof -
  have h: "get \<lparr>strings = [todo_key ''a'' \<mapsto> json_dumps (to_dict
           \<lparr>id_f = JStr ''a'', title = JStr ''x'', done_f = JBool False,
            created_at = JStr ''c''\<rparr>)],
        todos_order = [''a'']\<rparr> ''a''
     = Inr (Some \<lparr>id_f = JStr ''a'', title = JStr ''x'', done_f = JBool False,
                  created_at = JStr ''c''\<rparr>)"
    by (simp add: get_stored)
  from toggle_only_flag [OF h, where lib = strings_only] h show ?thesis by simp
qed

section \<open>Listing\<close>

lemma list_all_loop_eq:
  "decodable r ids \<Longrightarrow> list_all_loop r ids acc = Inr (acc @ records_of r ids)"
  by (induction ids arbitrary: acc)
     (auto simp: decodable_def records_of_def split: sum.splits option.splits)

lemma list_all_loop_err:
  "\<not> decodable r ids \<Longrightarrow> \<exists>e. list_all_loop r ids acc = Inl e"
  by (induction ids arbitrary: acc)
     (auto simp: decodable_def split: sum.splits option.splits)

lemma first_error_None: "(first_error r ids = None) = decodable r ids"
  by (induction ids) (auto simp: decodable_def split: sum.splits)

lemma list_all_loop_first_error:
  "first_error r ids = Some e \<Longrightarrow> list_all_loop r ids acc = Inl e"
  by (induction ids arbitrary: acc) (auto split: sum.splits option.splits)

lemma list_all_todos_eq:
  "decodable r (todos_order r) \<Longrightarrow> list_all_todos r = Inr (records_of r (todos_order r))"
  by (simp add: list_all_todos_def redis_lrange_def list_all_loop_eq)

lemma list_all_todos_Inr: "list_all_todos r = Inr ts \<Longrightarrow> decodable r (todos_order r)"
  using list_all_loop_err[of r "todos_order r" "[]"]
  by (auto simp: list_all_todos_def redis_lrange_def)

lemma records_of_cong:
  "(\<And>tid. tid \<in> set ids \<Longrightarrow> get r' tid = get r tid) \<Longrightarrow> records_of r' ids = records_of r ids"
  unfolding records_of_def by (induction ids) auto

lemma decodable_cong:
  "(\<And>tid. tid \<in> set ids \<Longrightarrow> get r' tid = get r tid) \<Longrightarrow> decodable r' ids = decodable r ids"
  unfolding decodable_def by (induction ids) auto

text \<open>
  C4, as the code has it. \<^verbatim>\<open>list_all\<close> goes through the order list: when
  \<^verbatim>\<open>get\<close> raises on a listed identifier (its stored value does not deserialize),
  \<^verbatim>\<open>list_all\<close> raises the exception of the first such identifier and returns no
  list; otherwise it returns the records of the listed identifiers in the order of the
  list, and an identifier for which \<^verbatim>\<open>get\<close> returns None contributes nothing
  (\<open>records_of\<close>). Creating \<open>A\<close> and then \<open>B\<close>, with different identifiers that are
  not yet listed, puts \<open>B\<close> and then \<open>A\<close> in front of what was listed before; on the
  empty database the list is \<open>[B, A]\<close>.
\<close>

theorem list_all_index_order:
  "list_all_todos r =
     (case first_error r (todos_order r) of
        Some e \<Rightarrow> Inl e
      | None \<Rightarrow> Inr (records_of r (todos_order r)))
   \<and> (list_all_todos r = Inr ts \<and> ida \<noteq> idb
        \<and> ida \<notin> set (todos_order r) \<and> idb \<notin> set (todos_order r)
      \<longrightarrow> list_all_todos (snd (add lib (snd (add lib r (Todo_new ida ta titlea)))
                                  (Todo_new idb tb titleb)))
            = Inr (Todo_new idb tb titleb # Todo_new ida ta titlea # ts))"
proof (intro conjI impI)
  show "list_all_todos r =
     (case first_error r (todos_order r) of
        Some e \<Rightarrow> Inl e
      | None \<Rightarrow> Inr (records_of r (todos_order r)))"
  proof (cases "first_error r (todos_order r)")
    case None
    then have "decodable r (todos_order r)" by (simp add: first_error_None)
    then show ?thesis using None by (simp add: list_all_todos_eq)
  next
    case (Some e)
    then show ?thesis
      by (simp add: list_all_todos_def redis_lrange_def list_all_loop_first_error)
  qed
next
  assume h: "list_all_todos r = Inr ts \<and> ida \<noteq> idb
     \<and> ida \<notin> set (todos_order r) \<and> idb \<notin> set (todos_order r)"
  let ?a = "Todo_new ida ta titlea"
  let ?b = "Todo_new idb tb titleb"
  let ?r2 = "snd (add lib (snd (add lib r ?a)) ?b)"
  have dec: "decodable r (todos_order r)" using h list_all_todos_Inr by blast
  then have ts: "ts = records_of r (todos_order r)" using h list_all_todos_eq by simp
  have same: "get ?r2 tid = get r tid" if "tid \<in> set (todos_order r)" for tid
    using that h by (auto simp: get_add_new)
  have ord: "todos_order ?r2 = idb # ida # todos_order r"
    by (simp add: add_new_parts)
  have "decodable ?r2 (todos_order r)"
    using dec decodable_cong[of "todos_order r" ?r2 r] same by simp
  then have "decodable ?r2 (todos_order ?r2)"
    using h by (simp add: ord decodable_def get_add_new)
  then have "list_all_todos ?r2 = Inr (records_of ?r2 (todos_order ?r2))"
    by (rule list_all_todos_eq)
  also have "records_of ?r2 (todos_order ?r2) = ?b # ?a # records_of ?r2 (todos_order r)"
    using h by (simp add: ord records_of_def get_add_new)
  also have "records_of ?r2 (todos_order r) = records_of r (todos_order r)"
    using same by (rule records_of_cong)
  finally show "list_all_todos ?r2 = Inr (?b # ?a # ts)" using ts by simp
qed

theorem list_all_index_order_witness:
  "list_all_todos \<lparr>strings = Map.empty, todos_order = [''gone'']\<rparr> = Inr []
   \<and> list_all_todos \<lparr>strings = Map.empty, todos_order = []\<rparr> = Inr []
   \<and> list_all_todos
        (snd (add strings_only (snd (add strings_only
           \<lparr>strings = Map.empty, todos_order = []\<rparr> (Todo_new ''A'' ''c1'' ''first'')))
           (Todo_new ''B'' ''c2'' ''second'')))
       = Inr [Todo_new ''B'' ''c2'' ''second'', Todo_new ''A'' ''c1'' ''first'']"
proof -
  have l: "list_all_todos \<lparr>strings = Map.empty, todos_order = [''gone'']\<rparr> = Inr []"
    using list_all_index_order
            [where r = "\<lparr>strings = Map.empty, todos_order = [''gone'']\<rparr>"]
    by (simp add: records_of_def get_missing)
  have e: "list_all_todos \<lparr>strings = Map.empty, todos_order = []\<rparr> = Inr []"
    by (simp add: list_all_todos_def redis_lrange_def)
  show ?thesis
    using l e
          list_all_index_order
            [where r = "\<lparr>strings = Map.empty, todos_order = []\<rparr>" and ts = "[]"
               and lib = strings_only
               and ida = "''A''" and ta = "''c1''" and titlea = "''first''"
               and idb = "''B''" and tb = "''c2''" and titleb = "''second''"]
    by simp
qed

text \<open>
  C4 as the specification states it fails when a listed identifier holds a value that
  does not deserialize: \<^verbatim>\<open>list_all\<close> neither returns its record nor skips it, it
  raises.
\<close>

theorem list_all_malformed_counterexample:
  "todos_order \<lparr>strings = [todo_key ''a'' \<mapsto> Loads_to (JDict [])],
                 todos_order = [''a'']\<rparr> = [''a'']
   \<and> get \<lparr>strings = [todo_key ''a'' \<mapsto> Loads_to (JDict [])], todos_order = [''a'']\<rparr> ''a''
       = Inl TypeError
   \<and> list_all_todos \<lparr>strings = [todo_key ''a'' \<mapsto> Loads_to (JDict [])],
                      todos_order = [''a'']\<rparr> = Inl TypeError"
  by (simp add: list_all_todos_def redis_lrange_def get_def redis_get_def)

section \<open>Clearing the completed todos\<close>

lemma delete_strings: "strings (snd (delete r tid)) = (strings r)(todo_key tid := None)"
  by (simp add: delete_def redis_delete_def redis_lrem_def)

lemma delete_order: "todos_order (snd (delete r tid)) = removeAll tid (todos_order r)"
  by (simp add: delete_def redis_delete_def redis_lrem_def)

lemma get_delete: "get (snd (delete r tid)) x = (if x = tid then Inr None else get r x)"
  by (auto simp: delete_strings get_missing intro: get_cong)

lemma completed_delete: "completed (snd (delete r tid)) x = (x \<noteq> tid \<and> completed r x)"
  by (simp add: completed_def get_delete)

lemma completed_exists: "completed r tid \<Longrightarrow> strings r (todo_key tid) \<noteq> None"
  by (auto simp: completed_def split: sum.splits option.splits dest: get_Some_exists)

lemma completed_delete_True: "completed r tid \<Longrightarrow> fst (delete r tid)"
  using completed_exists[of r tid] by (simp add: delete_result)

lemma clear_loop_Cons:
  "clear_loop r (tid # ids) n =
     (case get r tid of
        Inl e \<Rightarrow> (Inl e, r)
      | Inr x \<Rightarrow> if completed r tid then clear_loop (snd (delete r tid)) ids (n + 1)
                 else clear_loop r ids n)"
proof (cases "completed r tid")
  case True
  then have "fst (delete r tid)" by (rule completed_delete_True)
  then have "delete r tid = (True, snd (delete r tid))" by (simp add: prod_eq_iff)
  then show ?thesis using True
    by (auto simp: completed_def split: sum.splits option.splits prod.splits bool.splits)
next
  case False
  then show ?thesis
    by (auto simp: completed_def split: sum.splits option.splits)
qed

declare clear_loop.simps(2) [simp del]

lemma decodable_Cons: "decodable r (tid # ids) = ((\<exists>x. get r tid = Inr x) \<and> decodable r ids)"
  by (auto simp: decodable_def split: sum.splits)

lemma decodable_delete: "decodable r ids \<Longrightarrow> decodable (snd (delete r tid)) ids"
  by (induction ids) (auto simp: decodable_Cons get_delete decodable_def)

lemma clear_loop_idle:
  "decodable r ids \<Longrightarrow> \<forall>x \<in> set ids. \<not> completed r x \<Longrightarrow> clear_loop r ids n = (Inr n, r)"
proof (induction ids)
  case Nil
  then show ?case by simp
next
  case (Cons tid ids)
  then show ?case by (auto simp: clear_loop_Cons decodable_Cons)
qed

lemma clear_loop_keeps_strings:
  "\<not> completed r x \<Longrightarrow> strings (snd (clear_loop r ids n)) (todo_key x) = strings r (todo_key x)"
proof (induction ids arbitrary: r n)
  case Nil
  then show ?case by simp
next
  case (Cons tid ids)
  show ?case
  proof (cases "get r tid")
    case (Inl e)
    then show ?thesis by (simp add: clear_loop_Cons)
  next
    case (Inr y)
    show ?thesis
    proof (cases "completed r tid")
      case True
      then have ne: "x \<noteq> tid" using Cons.prems by auto
      have "\<not> completed (snd (delete r tid)) x" using Cons.prems by (simp add: completed_delete)
      then have "strings (snd (clear_loop (snd (delete r tid)) ids (n + 1))) (todo_key x)
           = strings (snd (delete r tid)) (todo_key x)" by (rule Cons.IH)
      then show ?thesis using True Inr ne by (simp add: clear_loop_Cons delete_strings)
    next
      case False
      then show ?thesis using Inr Cons.IH[OF Cons.prems] by (simp add: clear_loop_Cons)
    qed
  qed
qed

lemma clear_loop_keeps_order:
  "filter (\<lambda>x. \<not> completed r x) (todos_order (snd (clear_loop r ids n)))
     = filter (\<lambda>x. \<not> completed r x) (todos_order r)"
proof (induction ids arbitrary: r n)
  case Nil
  then show ?case by simp
next
  case (Cons tid ids)
  show ?case
  proof (cases "get r tid")
    case (Inl e)
    then show ?thesis by (simp add: clear_loop_Cons)
  next
    case (Inr y)
    show ?thesis
    proof (cases "completed r tid")
      case True
      let ?r1 = "snd (delete r tid)"
      let ?o = "todos_order (snd (clear_loop ?r1 ids (n + 1)))"
      have ih: "filter (\<lambda>x. \<not> completed ?r1 x) ?o = filter (\<lambda>x. \<not> completed ?r1 x) (todos_order ?r1)"
        by (rule Cons.IH)
      have split: "filter (\<lambda>x. \<not> completed r x) zs
                 = filter (\<lambda>x. x \<noteq> tid) (filter (\<lambda>x. \<not> completed ?r1 x) zs)" for zs
        using True by (auto simp: completed_delete intro: filter_cong)
      have "filter (\<lambda>x. \<not> completed r x) ?o
              = filter (\<lambda>x. x \<noteq> tid) (filter (\<lambda>x. \<not> completed ?r1 x) ?o)"
        by (rule split)
      also have "\<dots> = filter (\<lambda>x. x \<noteq> tid) (filter (\<lambda>x. \<not> completed ?r1 x) (todos_order ?r1))"
        by (simp only: ih)
      also have "\<dots> = filter (\<lambda>x. \<not> completed r x) (todos_order ?r1)"
        by (rule split[symmetric])
      also have "\<dots> = filter (\<lambda>x. \<not> completed r x) (todos_order r)"
        using True by (auto simp: delete_order removeAll_filter_not_eq intro: filter_cong)
      finally show ?thesis using True Inr by (simp add: clear_loop_Cons)
    next
      case False
      then show ?thesis using Inr Cons.IH by (simp add: clear_loop_Cons)
    qed
  qed
qed

lemma clear_loop_run:
  "decodable r ids \<Longrightarrow>
     fst (clear_loop r ids n) = Inr (n + card {x \<in> set ids. completed r x})
   \<and> strings (snd (clear_loop r ids n)) =
       (\<lambda>k. if \<exists>x \<in> set ids. completed r x \<and> k = todo_key x then None else strings r k)
   \<and> todos_order (snd (clear_loop r ids n)) =
       filter (\<lambda>x. \<not> (x \<in> set ids \<and> completed r x)) (todos_order r)"
proof (induction ids arbitrary: r n)
  case Nil
  then show ?case by simp
next
  case (Cons tid ids)
  from Cons.prems obtain y where y: "get r tid = Inr y" and dec: "decodable r ids"
    by (auto simp: decodable_Cons)
  show ?case
  proof (cases "completed r tid")
    case True
    let ?r1 = "snd (delete r tid)"
    have step: "clear_loop r (tid # ids) n = clear_loop ?r1 ids (n + 1)"
      using True y by (simp add: clear_loop_Cons)
    have ih: "fst (clear_loop ?r1 ids (n + 1)) = Inr (n + 1 + card {x \<in> set ids. completed ?r1 x})
      \<and> strings (snd (clear_loop ?r1 ids (n + 1))) =
         (\<lambda>k. if \<exists>x \<in> set ids. completed ?r1 x \<and> k = todo_key x then None else strings ?r1 k)
      \<and> todos_order (snd (clear_loop ?r1 ids (n + 1))) =
         filter (\<lambda>x. \<not> (x \<in> set ids \<and> completed ?r1 x)) (todos_order ?r1)"
      by (rule Cons.IH) (rule decodable_delete[OF dec])
    have sets: "{x \<in> set (tid # ids). completed r x} = insert tid {x \<in> set ids. completed ?r1 x}"
      using True by (auto simp: completed_delete)
    have notin: "tid \<notin> {x \<in> set ids. completed ?r1 x}" by (simp add: completed_delete)
    have "card (insert tid {x \<in> set ids. completed ?r1 x}) = Suc (card {x \<in> set ids. completed ?r1 x})"
      using notin by (intro card_insert_disjoint) auto
    then have card: "card {x \<in> set (tid # ids). completed r x} = 1 + card {x \<in> set ids. completed ?r1 x}"
      by (simp only: sets)
    have str: "(\<lambda>k. if \<exists>x \<in> set ids. completed ?r1 x \<and> k = todo_key x then None else strings ?r1 k)
        = (\<lambda>k. if \<exists>x \<in> set (tid # ids). completed r x \<and> k = todo_key x then None else strings r k)"
      using True by (auto simp: completed_delete delete_strings fun_eq_iff)
    have ord: "filter (\<lambda>x. \<not> (x \<in> set ids \<and> completed ?r1 x)) (todos_order ?r1)
        = filter (\<lambda>x. \<not> (x \<in> set (tid # ids) \<and> completed r x)) (todos_order r)"
      using True by (auto simp: completed_delete delete_order removeAll_filter_not_eq intro: filter_cong)
    show ?thesis using ih card str ord by (simp add: step)
  next
    case False
    have step: "clear_loop r (tid # ids) n = clear_loop r ids n"
      using False y by (simp add: clear_loop_Cons)
    have sets: "{x \<in> set (tid # ids). completed r x} = {x \<in> set ids. completed r x}"
      using False by auto
    have str: "(\<lambda>k. if \<exists>x \<in> set (tid # ids). completed r x \<and> k = todo_key x then None else strings r k)
        = (\<lambda>k. if \<exists>x \<in> set ids. completed r x \<and> k = todo_key x then None else strings r k)"
      using False by (auto simp: fun_eq_iff)
    have ord: "filter (\<lambda>x. \<not> (x \<in> set (tid # ids) \<and> completed r x)) (todos_order r)
        = filter (\<lambda>x. \<not> (x \<in> set ids \<and> completed r x)) (todos_order r)"
      using False by (auto intro: filter_cong)
    show ?thesis unfolding step sets str ord by (rule Cons.IH[OF dec])
  qed
qed

lemma records_of_filter:
  "records_of r (filter (\<lambda>x. \<not> completed r x) ids) = filter (\<lambda>t. \<not> truthy (done_f t)) (records_of r ids)"
  by (induction ids) (auto simp: records_of_def completed_def split: sum.splits option.splits)

lemma decodable_filter: "decodable r ids \<Longrightarrow> decodable r (filter P ids)"
  by (induction ids) (auto simp: decodable_def)

lemma get_after_clear:
  "\<not> completed r x \<Longrightarrow> get (snd (clear_completed r)) x = get r x"
  unfolding clear_completed_def by (rule get_cong) (rule clear_loop_keeps_strings)

lemma clear_completed_order:
  "decodable r (todos_order r) \<Longrightarrow>
     todos_order (snd (clear_completed r)) = filter (\<lambda>x. \<not> completed r x) (todos_order r)"
  using clear_loop_run[of r "todos_order r" 0]
  by (auto simp: clear_completed_def redis_lrange_def intro: filter_cong)

lemma list_all_after_clear:
  assumes "list_all_todos r = Inr ts"
  shows "list_all_todos (snd (clear_completed r)) = Inr (filter (\<lambda>t. \<not> truthy (done_f t)) ts)"
proof -
  let ?r' = "snd (clear_completed r)"
  let ?keep = "filter (\<lambda>x. \<not> completed r x) (todos_order r)"
  have dec: "decodable r (todos_order r)" using assms by (rule list_all_todos_Inr)
  then have ts: "ts = records_of r (todos_order r)" using assms list_all_todos_eq by simp
  have ord: "todos_order ?r' = ?keep" using dec by (rule clear_completed_order)
  have same: "get ?r' x = get r x" if "x \<in> set ?keep" for x
    using that by (simp add: get_after_clear)
  have "decodable r ?keep" using dec by (rule decodable_filter)
  then have "decodable ?r' ?keep" using decodable_cong[of ?keep ?r' r] same by blast
  then have "list_all_todos ?r' = Inr (records_of ?r' ?keep)"
    using list_all_todos_eq[of ?r'] by (simp add: ord)
  also have "records_of ?r' ?keep = records_of r ?keep" using same by (rule records_of_cong)
  also have "\<dots> = filter (\<lambda>t. \<not> truthy (done_f t)) ts" by (simp add: records_of_filter ts)
  finally show ?thesis .
qed


lemma first_error_delete:
  "completed r tid \<Longrightarrow> first_error (snd (delete r tid)) ids = first_error r ids"
  by (induction ids)
     (auto simp: get_delete completed_def split: sum.splits option.splits)

lemma clear_loop_error:
  "first_error r ids = Some e \<Longrightarrow> fst (clear_loop r ids n) = Inl e"
proof (induction ids arbitrary: r n)
  case Nil
  then show ?case by simp
next
  case (Cons tid ids)
  show ?case
  proof (cases "get r tid")
    case (Inl e')
    then show ?thesis using Cons.prems by (simp add: clear_loop_Cons)
  next
    case (Inr y)
    then have fe: "first_error r ids = Some e" using Cons.prems by simp
    show ?thesis
    proof (cases "completed r tid")
      case True
      then have "first_error (snd (delete r tid)) ids = Some e"
        using fe by (simp add: first_error_delete)
      then have "fst (clear_loop (snd (delete r tid)) ids (n + 1)) = Inl e"
        by (rule Cons.IH)
      then show ?thesis using True Inr by (simp add: clear_loop_Cons)
    next
      case False
      then show ?thesis using Inr Cons.IH[OF fe] by (simp add: clear_loop_Cons)
    qed
  qed
qed

text \<open>
  C8, as the code has it. When \<^verbatim>\<open>list_all\<close> succeeds on the database (no listed
  value makes \<^verbatim>\<open>get\<close> raise), \<^verbatim>\<open>clear_completed\<close> returns the number of
  distinct listed identifiers whose record is completed, which is the number of its
  deletions that succeeded. It removes exactly their keys and their entries of the order
  list, so that \<^verbatim>\<open>list_all\<close> afterwards returns the records that were not completed,
  in the same order; and a second call at once returns 0 and changes nothing. When a
  listed value does not deserialize, \<^verbatim>\<open>clear_completed\<close> raises the exception of
  the first such identifier and returns no count.
\<close>

theorem clear_completed_count:
  "(list_all_todos r = Inr ts \<longrightarrow>
      fst (clear_completed r) = Inr (length (remdups (filter (completed r) (todos_order r))))
      \<and> todos_order (snd (clear_completed r))
            = filter (\<lambda>x. \<not> completed r x) (todos_order r)
      \<and> strings (snd (clear_completed r)) =
            (\<lambda>k. if \<exists>x \<in> set (todos_order r). completed r x \<and> k = todo_key x then None
                 else strings r k)
      \<and> list_all_todos (snd (clear_completed r)) = Inr (filter (\<lambda>t. \<not> truthy (done_f t)) ts)
      \<and> clear_completed (snd (clear_completed r)) = (Inr 0, snd (clear_completed r)))
   \<and> (first_error r (todos_order r) = Some e \<longrightarrow> fst (clear_completed r) = Inl e)"
proof (intro conjI impI)
  assume "first_error r (todos_order r) = Some e"
  then show "fst (clear_completed r) = Inl e"
    unfolding clear_completed_def redis_lrange_def by (rule clear_loop_error)
next
  assume ok: "list_all_todos r = Inr ts"
  let ?r' = "snd (clear_completed r)"
  have dec: "decodable r (todos_order r)" using ok by (rule list_all_todos_Inr)
  note run = clear_loop_run[OF dec, of 0]
  have cnt: "card {x \<in> set (todos_order r). completed r x}
               = length (remdups (filter (completed r) (todos_order r)))"
    by (simp add: length_remdups_card_conv)
  show c1: "fst (clear_completed r)
              = Inr (length (remdups (filter (completed r) (todos_order r))))"
    using run cnt by (simp add: clear_completed_def redis_lrange_def)
  show c2: "todos_order ?r' = filter (\<lambda>x. \<not> completed r x) (todos_order r)"
    using dec by (rule clear_completed_order)
  show c3: "strings ?r' =
       (\<lambda>k. if \<exists>x \<in> set (todos_order r). completed r x \<and> k = todo_key x then None
            else strings r k)"
    using run by (simp add: clear_completed_def redis_lrange_def)
  show c4: "list_all_todos ?r' = Inr (filter (\<lambda>t. \<not> truthy (done_f t)) ts)"
    using ok by (rule list_all_after_clear)
  have dec': "decodable ?r' (todos_order ?r')" using c4 by (rule list_all_todos_Inr)
  have none: "\<forall>x \<in> set (todos_order ?r'). \<not> completed ?r' x"
  proof
    fix x assume "x \<in> set (todos_order ?r')"
    then have nx: "\<not> completed r x" by (simp add: c2)
    then have "get ?r' x = get r x" by (rule get_after_clear)
    then show "\<not> completed ?r' x" using nx by (simp add: completed_def)
  qed
  show "clear_completed ?r' = (Inr 0, ?r')"
    unfolding clear_completed_def[of ?r'] redis_lrange_def
    using dec' none by (rule clear_loop_idle)
qed

text \<open>
  C10. \<^verbatim>\<open>clear_completed\<close> never removes a record whose flag is false, also when
  it is stopped by an exception: \<^verbatim>\<open>get\<close> still returns the record afterwards, and
  the identifiers that were not completed keep their places relative to each other in
  the order list. When \<^verbatim>\<open>list_all\<close> succeeded before, it succeeds afterwards, and
  its uncompleted records, hence their identifiers, are the uncompleted ones of before
  in the same order.
\<close>

theorem clear_completed_keeps_uncompleted:
  "(get r tid = Inr (Some t) \<and> \<not> truthy (done_f t)
      \<longrightarrow> get (snd (clear_completed r)) tid = Inr (Some t))
   \<and> filter (\<lambda>x. \<not> completed r x) (todos_order (snd (clear_completed r)))
       = filter (\<lambda>x. \<not> completed r x) (todos_order r)
   \<and> (list_all_todos r = Inr ts \<longrightarrow>
        (\<exists>ts'. list_all_todos (snd (clear_completed r)) = Inr ts'
           \<and> filter (\<lambda>t. \<not> truthy (done_f t)) ts' = filter (\<lambda>t. \<not> truthy (done_f t)) ts
           \<and> map id_f (filter (\<lambda>t. \<not> truthy (done_f t)) ts')
               = map id_f (filter (\<lambda>t. \<not> truthy (done_f t)) ts)))"
proof (intro conjI impI)
  assume "get r tid = Inr (Some t) \<and> \<not> truthy (done_f t)"
  then have g: "get r tid = Inr (Some t)" and "\<not> completed r tid"
    by (simp_all add: completed_def)
  then show "get (snd (clear_completed r)) tid = Inr (Some t)"
    by (simp add: get_after_clear)
next
  show "filter (\<lambda>x. \<not> completed r x) (todos_order (snd (clear_completed r)))
       = filter (\<lambda>x. \<not> completed r x) (todos_order r)"
    unfolding clear_completed_def by (rule clear_loop_keeps_order)
next
  assume "list_all_todos r = Inr ts"
  then have "list_all_todos (snd (clear_completed r))
               = Inr (filter (\<lambda>t. \<not> truthy (done_f t)) ts)"
    by (rule list_all_after_clear)
  then show "\<exists>ts'. list_all_todos (snd (clear_completed r)) = Inr ts'
           \<and> filter (\<lambda>t. \<not> truthy (done_f t)) ts' = filter (\<lambda>t. \<not> truthy (done_f t)) ts
           \<and> map id_f (filter (\<lambda>t. \<not> truthy (done_f t)) ts')
               = map id_f (filter (\<lambda>t. \<not> truthy (done_f t)) ts)"
    by simp
qed

subsection \<open>The example of the specification\<close>

lemma ex_strip: "strip ''one'' = ''one''" "strip ''two'' = ''two''" "strip ''three'' = ''three''"
  by (simp_all add: strip_def is_space_def)

lemmas ex_defs = example_store_def Let_def add_def toggle_def update_def get_def redis_get_def
  redis_set_def redis_lpush_def redis_exists_def json_dumps_def to_dict_def Todo_new_def ex_strip
  todo_key_def client_encode_def py_str_def item_def

lemma ex_order: "todos_order example_store = [''C'', ''B'', ''A'']"
  by (simp add: ex_defs)

lemma ex_get:
  "get example_store ''A'' = Inr (Some \<lparr>id_f = JStr ''A'', title = JStr ''one'',
      done_f = JBool False, created_at = JStr ''t1''\<rparr>)"
  "get example_store ''B'' = Inr (Some \<lparr>id_f = JStr ''B'', title = JStr ''two'',
      done_f = JBool True, created_at = JStr ''t2''\<rparr>)"
  "get example_store ''C'' = Inr (Some \<lparr>id_f = JStr ''C'', title = JStr ''three'',
      done_f = JBool True, created_at = JStr ''t3''\<rparr>)"
  by (simp_all add: ex_defs)

lemma ex_list: "list_all_todos example_store = Inr
    [\<lparr>id_f = JStr ''C'', title = JStr ''three'', done_f = JBool True, created_at = JStr ''t3''\<rparr>,
     \<lparr>id_f = JStr ''B'', title = JStr ''two'', done_f = JBool True, created_at = JStr ''t2''\<rparr>,
     \<lparr>id_f = JStr ''A'', title = JStr ''one'', done_f = JBool False, created_at = JStr ''t1''\<rparr>]"
  by (simp add: list_all_todos_def redis_lrange_def ex_order ex_get)

theorem clear_completed_count_witness:
  "list_all_todos example_store = Inr
    [\<lparr>id_f = JStr ''C'', title = JStr ''three'', done_f = JBool True, created_at = JStr ''t3''\<rparr>,
     \<lparr>id_f = JStr ''B'', title = JStr ''two'', done_f = JBool True, created_at = JStr ''t2''\<rparr>,
     \<lparr>id_f = JStr ''A'', title = JStr ''one'', done_f = JBool False, created_at = JStr ''t1''\<rparr>]
   \<and> fst (clear_completed example_store) = Inr 2
   \<and> list_all_todos (snd (clear_completed example_store))
        = Inr [\<lparr>id_f = JStr ''A'', title = JStr ''one'', done_f = JBool False,
                created_at = JStr ''t1''\<rparr>]
   \<and> clear_completed (snd (clear_completed example_store))
        = (Inr 0, snd (clear_completed example_store))"
  using clear_completed_count [where r = example_store and ts = "
    [\<lparr>id_f = JStr ''C'', title = JStr ''three'', done_f = JBool True, created_at = JStr ''t3''\<rparr>,
     \<lparr>id_f = JStr ''B'', title = JStr ''two'', done_f = JBool True, created_at = JStr ''t2''\<rparr>,
     \<lparr>id_f = JStr ''A'', title = JStr ''one'', done_f = JBool False, created_at = JStr ''t1''\<rparr>]"]
    ex_list
  by (simp add: ex_order completed_def ex_get)

text \<open>
  C8 as the specification states it fails when a listed value does not deserialize.
  Here \<open>d\<close> is completed and \<open>m\<close> holds \<^verbatim>\<open>{}\<close>: \<^verbatim>\<open>clear_completed\<close> deletes \<open>d\<close>,
  then raises TypeError at \<open>m\<close> and returns no count, and a second call raises again
  instead of returning 0.
\<close>

theorem clear_completed_malformed_counterexample:
  "fst (clear_completed
         \<lparr>strings = [todo_key ''d'' \<mapsto> json_dumps (to_dict
              \<lparr>id_f = JStr ''d'', title = JStr ''x'', done_f = JBool True,
               created_at = JStr ''c''\<rparr>),
            todo_key ''m'' \<mapsto> Loads_to (JDict [])],
          todos_order = [''d'', ''m'']\<rparr>) = Inl TypeError
   \<and> get (snd (clear_completed
         \<lparr>strings = [todo_key ''d'' \<mapsto> json_dumps (to_dict
              \<lparr>id_f = JStr ''d'', title = JStr ''x'', done_f = JBool True,
               created_at = JStr ''c''\<rparr>),
            todo_key ''m'' \<mapsto> Loads_to (JDict [])],
          todos_order = [''d'', ''m'']\<rparr>)) ''d'' = Inr None
   \<and> todos_order (snd (clear_completed
         \<lparr>strings = [todo_key ''d'' \<mapsto> json_dumps (to_dict
              \<lparr>id_f = JStr ''d'', title = JStr ''x'', done_f = JBool True,
               created_at = JStr ''c''\<rparr>),
            todo_key ''m'' \<mapsto> Loads_to (JDict [])],
          todos_order = [''d'', ''m'']\<rparr>)) = [''m'']
   \<and> fst (clear_completed (snd (clear_completed
         \<lparr>strings = [todo_key ''d'' \<mapsto> json_dumps (to_dict
              \<lparr>id_f = JStr ''d'', title = JStr ''x'', done_f = JBool True,
               created_at = JStr ''c''\<rparr>),
            todo_key ''m'' \<mapsto> Loads_to (JDict [])],
          todos_order = [''d'', ''m'']\<rparr>))) = Inl TypeError"
  by (simp add: clear_completed_def redis_lrange_def clear_loop.simps get_def redis_get_def
        json_dumps_def to_dict_def item_def delete_def redis_delete_def redis_lrem_def
        todo_key_def)

theorem clear_completed_keeps_uncompleted_witness:
  "get example_store ''A'' = Inr (Some \<lparr>id_f = JStr ''A'', title = JStr ''one'',
        done_f = JBool False, created_at = JStr ''t1''\<rparr>)
   \<and> get (snd (clear_completed example_store)) ''A''
       = Inr (Some \<lparr>id_f = JStr ''A'', title = JStr ''one'', done_f = JBool False,
                    created_at = JStr ''t1''\<rparr>)
   \<and> filter (\<lambda>x. \<not> completed example_store x)
        (todos_order (snd (clear_completed example_store))) = [''A'']
   \<and> (\<exists>ts'. list_all_todos (snd (clear_completed example_store)) = Inr ts'
          \<and> map id_f (filter (\<lambda>t. \<not> truthy (done_f t)) ts') = [JStr ''A''])"
  using clear_completed_keeps_uncompleted
     [where r = example_store and tid = "''A''"
        and t = "\<lparr>id_f = JStr ''A'', title = JStr ''one'', done_f = JBool False,
                  created_at = JStr ''t1''\<rparr>"
        and ts = "[\<lparr>id_f = JStr ''C'', title = JStr ''three'', done_f = JBool True, created_at = JStr ''t3''\<rparr>,
     \<lparr>id_f = JStr ''B'', title = JStr ''two'', done_f = JBool True, created_at = JStr ''t2''\<rparr>,
     \<lparr>id_f = JStr ''A'', title = JStr ''one'', done_f = JBool False, created_at = JStr ''t1''\<rparr>]"]
    ex_list
  by (auto simp add: ex_order completed_def ex_get)

end
